theory Spec2Isabelle
  imports Complex_Main "HOL-Library.Sublist"
begin

section \<open>Strings\<close>

text \<open>
  The summariser of \<^verbatim>\<open>frontend/app.js\<close> is pure computation over JavaScript strings.
  A string is modelled as a \<^typ>\<open>string\<close> of ASCII characters. The regular-expression class
  \<^verbatim>\<open>\s\<close> is modelled by its ASCII members (TAB, LF, VT, FF, CR, SPACE), and the case
  conversions act on the letters A-Z and a-z; text outside ASCII is outside the model.
\<close>

definition is_space :: "char \<Rightarrow> bool" where
  "is_space c = (c \<in> set [CHR 0x09, CHR 0x0A, CHR 0x0B, CHR 0x0C, CHR 0x0D, CHR 0x20])"

definition lower_letters :: string where
  "lower_letters = ''abcdefghijklmnopqrstuvwxyz''"

definition upper_letters :: string where
  "upper_letters = ''ABCDEFGHIJKLMNOPQRSTUVWXYZ''"

definition toLowerChar :: "char \<Rightarrow> char" where
  "toLowerChar c = (case map_of (zip upper_letters lower_letters) c of Some d \<Rightarrow> d | None \<Rightarrow> c)"

definition toUpperChar :: "char \<Rightarrow> char" where
  "toUpperChar c = (case map_of (zip lower_letters upper_letters) c of Some d \<Rightarrow> d | None \<Rightarrow> c)"

definition toLowerCase :: "string \<Rightarrow> string" where
  "toLowerCase s = map toLowerChar s"

definition toUpperCase :: "string \<Rightarrow> string" where
  "toUpperCase s = map toUpperChar s"

text \<open>\<^verbatim>\<open>String.prototype.trim\<close>: white space is removed from both ends.\<close>

definition trim :: "string \<Rightarrow> string" where
  "trim s = rev (dropWhile is_space (rev (dropWhile is_space s)))"

text \<open>\<^verbatim>\<open>s.includes(t)\<close>: \<open>t\<close> occurs in \<open>s\<close> as a contiguous substring.\<close>

fun includes_str :: "string \<Rightarrow> string \<Rightarrow> bool" where
  "includes_str [] t = (t = [])"
| "includes_str (c # cs) t = (prefix t (c # cs) \<or> includes_str cs t)"

text \<open>\<^verbatim>\<open>s.endsWith(t)\<close>.\<close>

definition endsWith :: "string \<Rightarrow> string \<Rightarrow> bool" where
  "endsWith s t = suffix t s"

text \<open>
  \<^verbatim>\<open>s.split(/\s+/)\<close>: the fields between maximal runs of white space. A run at the start
  or at the end of the string leaves an empty field there, and the empty string splits into
  one empty field. The flag says that the previous character was white space; \<open>cur\<close> is
  the current field, reversed.
\<close>

fun split_go :: "bool \<Rightarrow> string \<Rightarrow> string \<Rightarrow> string list" where
  "split_go insep cur [] = [rev cur]"
| "split_go insep cur (c # cs) =
     (if is_space c then (if insep then split_go True [] cs else rev cur # split_go True [] cs)
      else split_go False (c # cur) cs)"

definition split_ws :: "string \<Rightarrow> string list" where
  "split_ws s = split_go False [] s"

text \<open>\<^verbatim>\<open>xs.join(sep)\<close>.\<close>

fun join :: "string \<Rightarrow> string list \<Rightarrow> string" where
  "join sep [] = []"
| "join sep [x] = x"
| "join sep (x # y # ys) = x @ sep @ join sep (y # ys)"

text \<open>
  \<^verbatim>\<open>countWords\<close>:
  \<^verbatim>\<open>if (!text.trim()) return 0;
  return text.trim().split(/\s+/).filter(word => word.length > 0).length;\<close>
\<close>

definition countWords :: "string \<Rightarrow> nat" where
  "countWords text =
     (if trim text = [] then 0
      else length (filter (\<lambda>word. length word > 0) (split_ws (trim text))))"

text \<open>\<^verbatim>\<open>s.replace(/\s+/g, ' ')\<close>: every maximal run of white space becomes one space.\<close>

fun collapse_go :: "bool \<Rightarrow> string \<Rightarrow> string" where
  "collapse_go insep [] = []"
| "collapse_go insep (c # cs) =
     (if is_space c then (if insep then collapse_go True cs else CHR '' '' # collapse_go True cs)
      else c # collapse_go False cs)"

definition collapse_ws :: "string \<Rightarrow> string" where
  "collapse_ws s = collapse_go False s"

text \<open>
  \<^verbatim>\<open>s.replace(/\s+([.,!?])/g, '$1')\<close>: a maximal run of white space that is followed by
  one of the four punctuation characters is removed, the punctuation character stays.
  \<open>ws\<close> is the run of white space read so far, reversed; it is written out when the
  character after it is not punctuation.
\<close>

definition is_punct :: "char \<Rightarrow> bool" where
  "is_punct c = (c \<in> set ''.,!?'')"

fun unspace_go :: "string \<Rightarrow> string \<Rightarrow> string" where
  "unspace_go ws [] = rev ws"
| "unspace_go ws (c # cs) =
     (if is_space c then unspace_go (c # ws) cs
      else if is_punct c \<and> ws \<noteq> [] then c # unspace_go [] cs
      else rev ws @ c # unspace_go [] cs)"

definition unspace_punct :: "string \<Rightarrow> string" where
  "unspace_punct s = unspace_go [] s"

section \<open>Numbers\<close>

text \<open>
  JavaScript numbers are IEEE doubles. The numbers of the pipeline are quotients of two
  array lengths or word counts, and they are modelled by exact rationals. For counts below
  \<open>2\<^sup>3\<^sup>2\<close> (the bound on the length of an array) the comparisons of the source have the
  same result on doubles as on rationals: a quotient \<open>m / n\<close> against \<open>0.7\<close>, and
  \<open>1 - s / o\<close> against \<open>0.9\<close> and \<open>0.3\<close>; and \<^verbatim>\<open>Math.ceil(n * 0.3)\<close> is the ceiling
  of \<open>3 n / 10\<close>. A rounded percent can differ from the double computation where the exact
  percent ends in \<open>.5\<close>; no statement below depends on such a value. A division by zero
  gives \<^verbatim>\<open>NaN\<close> or an infinity in JavaScript, so the one unguarded division of the
  source has its result in \<open>jsnum\<close>.
\<close>

datatype jsnum = Finite rat | PosInfinity | NegInfinity | NaN

text \<open>The quotient \<^verbatim>\<open>a / b\<close> of two counts.\<close>

definition js_div :: "nat \<Rightarrow> nat \<Rightarrow> jsnum" where
  "js_div a b =
     (if b = 0 then (if a = 0 then NaN else PosInfinity) else Finite (of_nat a / of_nat b))"

text \<open>\<^verbatim>\<open>1 - x\<close>.\<close>

fun js_one_minus :: "jsnum \<Rightarrow> jsnum" where
  "js_one_minus (Finite r) = Finite (1 - r)"
| "js_one_minus PosInfinity = NegInfinity"
| "js_one_minus NegInfinity = PosInfinity"
| "js_one_minus NaN = NaN"

text \<open>\<^verbatim>\<open>x > c\<close> and \<^verbatim>\<open>x < c\<close> for a finite constant \<open>c\<close>: every comparison with NaN is false.\<close>

fun js_gt :: "jsnum \<Rightarrow> rat \<Rightarrow> bool" where
  "js_gt (Finite r) c = (r > c)"
| "js_gt PosInfinity c = True"
| "js_gt NegInfinity c = False"
| "js_gt NaN c = False"

fun js_lt :: "jsnum \<Rightarrow> rat \<Rightarrow> bool" where
  "js_lt (Finite r) c = (r < c)"
| "js_lt PosInfinity c = False"
| "js_lt NegInfinity c = True"
| "js_lt NaN c = False"

text \<open>\<^verbatim>\<open>Math.round\<close> rounds to the nearest integer, a tie upwards.\<close>

definition round_half_up :: "rat \<Rightarrow> int" where
  "round_half_up x = \<lfloor>x + 1 / 2\<rfloor>"

text \<open>\<^verbatim>\<open>Math.round(x * 100)\<close>; NaN and the infinities stay what they are.\<close>

fun js_round_percent :: "jsnum \<Rightarrow> jsnum" where
  "js_round_percent (Finite r) = Finite (of_int (round_half_up (r * 100)))"
| "js_round_percent PosInfinity = PosInfinity"
| "js_round_percent NegInfinity = NegInfinity"
| "js_round_percent NaN = NaN"

section \<open>The data of the pipeline\<close>

text \<open>
  The object literals of the source, one record each. The fields of the agents' results
  carry a prefix (\<open>r_\<close> reasoning, \<open>v_\<close> verification, \<open>s_\<close> simplification,
  \<open>c_\<close> critique), since \<^verbatim>\<open>summary\<close>, \<^verbatim>\<open>issues\<close> and \<^verbatim>\<open>confidence\<close> occur in
  several of them.
\<close>

record NormalizedDocument =
  original :: string
  normalized :: string
  sentences :: "string list"
  wordCount :: nat

record ScoredSentence =
  sentence :: string
  score :: int
  index :: nat

record ReasoningResult =
  r_summary :: string
  r_confidence :: rat
  r_keyPoints :: nat

record VerificationResult =
  v_verified :: bool
  v_coverage :: int
  v_issues :: "string list"
  v_confidence :: rat

text \<open>
  \<open>s_avgWordLength\<close> holds the number that the source formats with \<^verbatim>\<open>toFixed(1)\<close>.
\<close>

record SimplificationResult =
  s_summary :: string
  s_readabilityImproved :: bool
  s_avgWordLength :: rat
  s_confidence :: rat

datatype Quality = Good | Fair | NeedsImprovement

record CritiqueResult =
  c_issues :: "string list"
  c_compressionRatio :: jsnum
  c_quality :: Quality
  c_confidence :: rat

section \<open>Input processor\<close>

text \<open>
  \<^verbatim>\<open>processInput\<close> normalizes the white space of the text, strips URLs and e-mail
  addresses, and cuts the result into sentences:
  \<^verbatim>\<open>const sentences = processed.split(/(?<=[.!?])\s+/).filter(s => s.length > 10);
  return { original: text, normalized: processed, sentences: sentences,
           wordCount: countWords(processed) };\<close>
  The stripping is not modelled: the normalized text is taken as it is. The split cuts at
  every maximal run of white space that follows one of \<open>.\<close>, \<open>!\<close>, \<open>?\<close>; the run is
  dropped and the punctuation stays with the sentence before it. \<open>cur\<close> is the current
  piece, reversed, so its head is the character before the one that is read.
\<close>

definition is_terminator :: "char \<Rightarrow> bool" where
  "is_terminator c = (c \<in> set ''.!?'')"

fun sentence_go :: "bool \<Rightarrow> string \<Rightarrow> string \<Rightarrow> string list" where
  "sentence_go insep cur [] = [rev cur]"
| "sentence_go insep cur (c # cs) =
     (if is_space c then
        (if insep then sentence_go True [] cs
         else if cur \<noteq> [] \<and> is_terminator (hd cur) then rev cur # sentence_go True [] cs
         else sentence_go False (c # cur) cs)
      else sentence_go False (c # cur) cs)"

definition split_sentences :: "string \<Rightarrow> string list" where
  "split_sentences processed = sentence_go False [] processed"

definition sentences_of :: "string \<Rightarrow> string list" where
  "sentences_of processed = filter (\<lambda>s. length s > 10) (split_sentences processed)"

text \<open>
  What \<^verbatim>\<open>processInput\<close> guarantees about the document it hands to the agents: every
  sentence is a piece of the normalized text.
\<close>

definition from_source :: "NormalizedDocument \<Rightarrow> bool" where
  "from_source p = list_all (\<lambda>s. includes_str (normalized p) s) (sentences p)"

section \<open>Reasoning agent\<close>

definition keyIndicators :: "string list" where
  "keyIndicators = [''key'', ''important'', ''main'', ''essential'', ''critical'',
     ''significant'', ''primary'', ''focus'', ''because'', ''therefore'', ''thus'', ''result'']"

text \<open>
  The \<^verbatim>\<open>forEach\<close> over the indicators:
  \<^verbatim>\<open>if (lowerSentence.includes(indicator)) score += 2;\<close>
\<close>

definition keyword_weight :: "string \<Rightarrow> int \<Rightarrow> int" where
  "keyword_weight lowerSentence score0 =
     foldl (\<lambda>score indicator. if includes_str lowerSentence indicator then score + 2 else score)
       score0 keyIndicators"

text \<open>The callback of \<^verbatim>\<open>sentences.map((sentence, index) => ...)\<close>.\<close>

definition score_sentence :: "string list \<Rightarrow> nat \<Rightarrow> string \<Rightarrow> ScoredSentence" where
  "score_sentence sents idx sent =
     (let score0 = 0;
          score1 = (if idx < 2 then score0 + 3 else score0);
          score2 = (if int idx = int (length sents) - 1 then score1 + 2 else score1);
          lowerSentence = toLowerCase sent;
          score3 = keyword_weight lowerSentence score2;
          wc = countWords sent;
          score4 = (if wc \<ge> 10 \<and> wc \<le> 30 then score3 + 1 else score3)
      in \<lparr>sentence = sent, score = score4, index = idx\<rparr>)"

definition scored :: "string list \<Rightarrow> ScoredSentence list" where
  "scored sents = map (\<lambda>(idx, sent). score_sentence sents idx sent) (enumerate 0 sents)"

text \<open>\<^verbatim>\<open>Math.max(3, Math.ceil(sentences.length * 0.3))\<close>.\<close>

definition top_count :: "nat \<Rightarrow> nat" where
  "top_count n = max 3 (nat \<lceil>of_nat n * (3 / 10 :: rat)\<rceil>)"

text \<open>
  \<^verbatim>\<open>scored.sort((a, b) => b.score - a.score).slice(0, ...).sort((a, b) => a.index - b.index)\<close>:
  the scored sentences that are selected, before the last \<^verbatim>\<open>map\<close> of the chain.
  \<^verbatim>\<open>Array.prototype.sort\<close> is stable, as is \<^const>\<open>sort_key\<close>: sorting by the negated
  score is the descending sort of the source.
\<close>

definition chosen :: "string list \<Rightarrow> ScoredSentence list" where
  "chosen sents =
     sort_key index
       (take (top_count (length sents))
         (sort_key (\<lambda>a. - score a) (scored sents)))"

text \<open>\<^verbatim>\<open>.map(item => item.sentence)\<close>.\<close>

definition topSentences :: "string list \<Rightarrow> string list" where
  "topSentences sents = map sentence (chosen sents)"

definition runReasoningAgent :: "NormalizedDocument \<Rightarrow> ReasoningResult" where
  "runReasoningAgent processed =
     (let tops = topSentences (sentences processed)
      in \<lparr>r_summary = join '' '' tops, r_confidence = 3 / 4, r_keyPoints = length tops\<rparr>)"

section \<open>Verification agent\<close>

text \<open>
  The three constants of \<^verbatim>\<open>runVerificationAgent\<close>:
  \<^verbatim>\<open>significantWords = summary.toLowerCase().split(/\s+/).filter(w => w.length > 4)\<close>,
  \<^verbatim>\<open>matchedWords = significantWords.filter(w => originalLower.includes(w))\<close> and
  \<^verbatim>\<open>coverage = significantWords.length > 0 ? matchedWords.length / significantWords.length : 0\<close>,
  the raw coverage.
\<close>

definition significantWords :: "ReasoningResult \<Rightarrow> string list" where
  "significantWords reasoningResult =
     filter (\<lambda>w. length w > 4) (split_ws (toLowerCase (r_summary reasoningResult)))"

definition matchedWords :: "NormalizedDocument \<Rightarrow> ReasoningResult \<Rightarrow> string list" where
  "matchedWords processed reasoningResult =
     filter (\<lambda>w. includes_str (toLowerCase (normalized processed)) w)
       (significantWords reasoningResult)"

definition coverage :: "NormalizedDocument \<Rightarrow> ReasoningResult \<Rightarrow> rat" where
  "coverage processed reasoningResult =
     (if length (significantWords reasoningResult) > 0
      then of_nat (length (matchedWords processed reasoningResult))
             / of_nat (length (significantWords reasoningResult))
      else 0)"

definition runVerificationAgent :: "NormalizedDocument \<Rightarrow> ReasoningResult \<Rightarrow> VerificationResult" where
  "runVerificationAgent processed reasoningResult =
     \<lparr>v_verified = (coverage processed reasoningResult > 7 / 10),
      v_coverage = round_half_up (coverage processed reasoningResult * 100),
      v_issues = (if coverage processed reasoningResult < 7 / 10
                  then [''Some claims may not be directly from source''] else []),
      v_confidence = coverage processed reasoningResult\<rparr>"

section \<open>Simplification agent\<close>

text \<open>
  The keys and values of \<^verbatim>\<open>replacements\<close>, in the order of \<^verbatim>\<open>Object.entries\<close>
  (the order in which the literal lists them).
\<close>

definition replacements :: "(string \<times> string) list" where
  "replacements =
     [(''utilize'', ''use''), (''implement'', ''set up''), (''facilitate'', ''help''),
      (''demonstrate'', ''show''), (''significant'', ''important''),
      (''approximately'', ''about''), (''subsequently'', ''then''),
      (''consequently'', ''so''), (''nevertheless'', ''but''), (''furthermore'', ''also'')]"

text \<open>
  A pattern that is a plain word, under the flag \<^verbatim>\<open>i\<close>: it matches at the start of a
  text when each of its characters equals the text's character up to case (the
  regular-expression engine compares the upper-case forms).
\<close>

fun match_ci :: "string \<Rightarrow> string \<Rightarrow> bool" where
  "match_ci [] s = True"
| "match_ci (p # ps) [] = False"
| "match_ci (p # ps) (c # cs) = (toUpperChar p = toUpperChar c \<and> match_ci ps cs)"

text \<open>
  \<^verbatim>\<open>s.replace(new RegExp(pat, 'gi'), rep)\<close> for a non-empty plain word \<open>pat\<close> and a
  replacement without \<^verbatim>\<open>$\<close>: the text is read from the left, every match is replaced
  and reading goes on behind it.
\<close>

fun replace_gi :: "string \<Rightarrow> string \<Rightarrow> string \<Rightarrow> string" where
  "replace_gi pat rep [] = []"
| "replace_gi pat rep (c # cs) =
     (if pat \<noteq> [] \<and> match_ci pat (c # cs)
      then rep @ replace_gi pat rep (drop (length pat) (c # cs))
      else c # replace_gi pat rep cs)"

text \<open>
  \<^verbatim>\<open>averageWordLength\<close>:
  \<^verbatim>\<open>const words = text.split(/\s+/).filter(w => w.length > 0);
  if (words.length === 0) return 0;
  return words.reduce((sum, word) => sum + word.length, 0) / words.length;\<close>
\<close>

definition averageWordLength :: "string \<Rightarrow> rat" where
  "averageWordLength text =
     (let words = filter (\<lambda>w. length w > 0) (split_ws text)
      in if length words = 0 then 0
         else of_nat (foldl (\<lambda>sum word. sum + length word) 0 words) / of_nat (length words))"

definition simplify_text :: "string \<Rightarrow> string" where
  "simplify_text text =
     foldl (\<lambda>simplified (complex, simple). replace_gi complex simple simplified)
       text replacements"

definition runSimplificationAgent :: "NormalizedDocument \<Rightarrow> ReasoningResult \<Rightarrow> SimplificationResult" where
  "runSimplificationAgent processed reasoningResult =
     (let simplified = simplify_text (r_summary reasoningResult);
          originalWordLength = averageWordLength (r_summary reasoningResult);
          simplifiedWordLength = averageWordLength simplified
      in \<lparr>s_summary = simplified,
          s_readabilityImproved = (simplifiedWordLength < originalWordLength),
          s_avgWordLength = simplifiedWordLength,
          s_confidence = 4 / 5\<rparr>)"

section \<open>Critique agent\<close>

definition stopWords :: "string list" where
  "stopWords = [''the'', ''a'', ''an'', ''is'', ''are'', ''was'', ''were'', ''be'', ''been'',
     ''being'', ''have'', ''has'', ''had'', ''do'', ''does'', ''did'', ''will'', ''would'',
     ''could'', ''should'', ''may'', ''might'', ''must'', ''shall'', ''can'', ''need'', ''dare'',
     ''ought'', ''used'', ''to'', ''of'', ''in'', ''for'', ''on'', ''with'', ''at'', ''by'',
     ''from'', ''as'', ''into'', ''through'', ''during'', ''before'', ''after'', ''above'',
     ''below'', ''between'', ''under'', ''again'', ''further'', ''then'', ''once'', ''here'',
     ''there'', ''when'', ''where'', ''why'', ''how'', ''all'', ''each'', ''few'', ''more'',
     ''most'', ''other'', ''some'', ''such'', ''no'', ''nor'', ''not'', ''only'', ''own'',
     ''same'', ''so'', ''than'', ''too'', ''very'', ''just'', ''and'', ''but'', ''if'', ''or'',
     ''because'', ''until'', ''while'', ''this'', ''that'', ''these'', ''those'', ''it'',
     ''its'']"

text \<open>
  \<^verbatim>\<open>wordFreq[cleaned] = (wordFreq[cleaned] || 0) + 1\<close> on an object whose keys are
  lower-case words: the entries keep the order in which the keys were first written.
\<close>

fun bump :: "(string \<times> nat) list \<Rightarrow> string \<Rightarrow> (string \<times> nat) list" where
  "bump [] w = [(w, 1)]"
| "bump ((k, n) # kvs) w = (if k = w then (k, n + 1) # kvs else (k, n) # bump kvs w)"

text \<open>\<^verbatim>\<open>word.replace(/[^a-z]/g, '')\<close>.\<close>

definition clean_word :: "string \<Rightarrow> string" where
  "clean_word word = filter (\<lambda>c. c \<in> set lower_letters) word"

definition count_terms :: "string list \<Rightarrow> (string \<times> nat) list" where
  "count_terms words =
     foldl (\<lambda>wordFreq word.
              (let cleaned = clean_word word
               in if length cleaned > 4 \<and> cleaned \<notin> set stopWords
                  then bump wordFreq cleaned else wordFreq))
       [] words"

text \<open>
  \<^verbatim>\<open>extractImportantTerms\<close>. The table \<^verbatim>\<open>wordFreq\<close> is an object literal, so the key
  \<^verbatim>\<open>constructor\<close> is found on its prototype: its entry is a string, never a count, and
  the test \<^verbatim>\<open>count >= 2\<close> fails for it. The descending sort by count is stable.
\<close>

definition extractImportantTerms :: "string \<Rightarrow> string list" where
  "extractImportantTerms text =
     (let words = split_ws (toLowerCase text);
          wordFreq = count_terms words
      in map fst
           (take 10
             (sort_key (\<lambda>(word, count). - int count)
               (filter (\<lambda>(word, count). count \<ge> 2 \<and> word \<noteq> ''constructor'') wordFreq))))"

definition quality_of :: "string list \<Rightarrow> Quality" where
  "quality_of issues =
     (if length issues = 0 then Good else if length issues < 2 then Fair else NeedsImprovement)"

definition runCritiqueAgent :: "NormalizedDocument \<Rightarrow> ReasoningResult \<Rightarrow> CritiqueResult" where
  "runCritiqueAgent processed reasoningResult =
     (let summary = r_summary reasoningResult;
          original = normalized processed;
          issues0 = [];
          summaryWordCount = countWords summary;
          originalWordCount = countWords original;
          compressionRatio = js_one_minus (js_div summaryWordCount originalWordCount);
          issues1 = (if js_gt compressionRatio (9 / 10)
                     then issues0 @ [''Summary may be over-compressed''] else issues0);
          issues2 = (if js_lt compressionRatio (3 / 10)
                     then issues1 @ [''Summary could be more concise''] else issues1);
          importantTerms = extractImportantTerms original;
          missedTerms = filter (\<lambda>term. \<not> includes_str (toLowerCase summary) (toLowerCase term))
                          importantTerms;
          issues3 = (if length missedTerms > 3
                     then issues2 @ [''May be missing: '' @ join '', '' (take 3 missedTerms)]
                     else issues2)
      in \<lparr>c_issues = issues3,
          c_compressionRatio = js_round_percent compressionRatio,
          c_quality = quality_of issues3,
          c_confidence = 7 / 10\<rparr>)"

section \<open>Output refiner\<close>

text \<open>
  \<^verbatim>\<open>finalSummary.replace(/\s+/g, ' ').replace(/\s+([.,!?])/g, '$1').trim()\<close>, then
  \<^verbatim>\<open>finalSummary.charAt(0).toUpperCase() + finalSummary.slice(1)\<close> (on the empty string
  \<^verbatim>\<open>charAt(0)\<close> is the empty string), then the final period.
\<close>

definition polish :: "string \<Rightarrow> string" where
  "polish base =
     (let cleaned = trim (unspace_punct (collapse_ws base));
          capitalized = toUpperCase (take 1 cleaned) @ drop 1 cleaned
      in if \<not> endsWith capitalized ''.'' \<and> \<not> endsWith capitalized ''!''
            \<and> \<not> endsWith capitalized ''?''
         then capitalized @ ''.'' else capitalized)"

definition refineSummary ::
  "ReasoningResult \<Rightarrow> VerificationResult \<Rightarrow> SimplificationResult \<Rightarrow> CritiqueResult \<Rightarrow> string" where
  "refineSummary reasoning verification simplification critique =
     (let finalSummary = (if v_verified verification then s_summary simplification
                          else r_summary reasoning)
      in polish finalSummary)"

section \<open>The keyword weight in the words of the specification\<close>

text \<open>
  The specification words the keyword weight as \<open>+2\<close> for each occurrence of an
  indicator. This second definition follows those words, to be compared with
  \<^const>\<open>keyword_weight\<close>, which follows the source. \<open>occurrences s t\<close> counts the
  positions of \<open>s\<close> at which \<open>t\<close> starts.
\<close>

fun occurrences :: "string \<Rightarrow> string \<Rightarrow> nat" where
  "occurrences [] t = 0"
| "occurrences (c # cs) t = (if prefix t (c # cs) then 1 else 0) + occurrences cs t"

definition spec_keyword_weight :: "string \<Rightarrow> int \<Rightarrow> int" where
  "spec_keyword_weight lowerSentence score0 =
     score0 + 2 * (\<Sum>indicator\<leftarrow>keyIndicators. int (occurrences lowerSentence indicator))"

section \<open>Example inputs\<close>

text \<open>
  A summary of ten significant words, seven of which occur in the source: the raw coverage
  is exactly \<open>7 / 10\<close>. The reasoning agent cannot produce this summary from this source.
\<close>

definition doc_boundary :: NormalizedDocument where
  "doc_boundary = \<lparr>original = ''alpha'', normalized = ''alpha'', sentences = [], wordCount = 1\<rparr>"

definition reasoning_boundary :: ReasoningResult where
  "reasoning_boundary =
     \<lparr>r_summary = ''alpha alpha alpha alpha alpha alpha alpha gamma1 gamma2 gamma3'',
      r_confidence = 3 / 4, r_keyPoints = 3\<rparr>"

text \<open>
  An input that is one URL: \<^verbatim>\<open>processInput\<close> removes the URL, so the normalized text is
  empty and there is no sentence.
\<close>

definition doc_url_only :: NormalizedDocument where
  "doc_url_only =
     \<lparr>original = ''https://example.org/a/very/long/path/that/goes/on/and/on/until/the/input/has/one/hundred/characters/'',
      normalized = '''', sentences = [], wordCount = 0\<rparr>"

text \<open>A source of four repeated long terms, and an empty summary of it.\<close>

definition doc_terms :: NormalizedDocument where
  "doc_terms =
     \<lparr>original = ''alphas alphas betas betas gammas gammas deltas deltas'',
      normalized = ''alphas alphas betas betas gammas gammas deltas deltas'',
      sentences = [], wordCount = 8\<rparr>"

text \<open>
  Five sentences with the scores \<open>3\<close>, \<open>5\<close>, \<open>0\<close>, \<open>0\<close>, \<open>4\<close>: by score the second
  comes first, then the fifth, then the first.
\<close>

definition doc_five :: NormalizedDocument where
  "doc_five =
     \<lparr>original = ''Alpha beta gamma delta. The key point is the key. Short one here ok. Another sentence follows now. Final result is here.'',
      normalized = ''Alpha beta gamma delta. The key point is the key. Short one here ok. Another sentence follows now. Final result is here.'',
      sentences = [''Alpha beta gamma delta.'', ''The key point is the key.'',
        ''Short one here ok.'', ''Another sentence follows now.'', ''Final result is here.''],
      wordCount = 22\<rparr>"

definition reasoning_empty :: ReasoningResult where
  "reasoning_empty = \<lparr>r_summary = '''', r_confidence = 3 / 4, r_keyPoints = 0\<rparr>"

text \<open>A summary in which none of the ten complex terms occurs.\<close>

definition reasoning_plain :: ReasoningResult where
  "reasoning_plain =
     \<lparr>r_summary = ''We use the tool. It helps a lot.'', r_confidence = 3 / 4, r_keyPoints = 2\<rparr>"


section \<open>The output refiner: properties\<close>

lemma endsWith_snoc: "endsWith (s @ [c]) [c]"
  by (simp add: endsWith_def)

lemma polish_ends:
  "endsWith (polish b) ''.'' \<or> endsWith (polish b) ''!'' \<or> endsWith (polish b) ''?''"
proof -
  define cap where "cap = toUpperCase (take 1 (trim (unspace_punct (collapse_ws b))))
                            @ drop 1 (trim (unspace_punct (collapse_ws b)))"
  show ?thesis
  proof (cases "\<not> endsWith cap ''.'' \<and> \<not> endsWith cap ''!'' \<and> \<not> endsWith cap ''?''")
    case True
    then have "polish b = cap @ ''.''"
      by (simp add: polish_def cap_def Let_def)
    then show ?thesis
      using endsWith_snoc [of cap "CHR ''.''"] by simp
  next
    case False
    then have "polish b = cap"
      by (auto simp add: polish_def cap_def Let_def)
    with False show ?thesis by auto
  qed
qed

lemma polish_empty: "polish [] = ''.''"
  by (simp add: polish_def collapse_ws_def unspace_punct_def trim_def toUpperCase_def endsWith_def)

text \<open>
  C1, as the code has it: for every selected base text, empty or not, \<open>refineSummary\<close>
  returns a string that ends in one of \<open>.\<close>, \<open>!\<close>, \<open>?\<close>; when the selected base text is
  the empty string, the final step appends the period to it and the result is \<open>.\<close>.
\<close>

theorem refine_ends_with_punctuation:
  "(endsWith (refineSummary r v s c) ''.'' \<or> endsWith (refineSummary r v s c) ''!''
      \<or> endsWith (refineSummary r v s c) ''?'')
   \<and> ((if v_verified v then s_summary s else r_summary r) = []
        \<longrightarrow> refineSummary r v s c = ''.'')"
  using polish_ends polish_empty by (simp add: refineSummary_def)

text \<open>The theorem of C1 at an empty reasoning summary that was not verified.\<close>

theorem refine_ends_with_punctuation_witness:
  "refineSummary \<lparr>r_summary = '''', r_confidence = 3 / 4, r_keyPoints = 0\<rparr>
     \<lparr>v_verified = False, v_coverage = 0,
      v_issues = [''Some claims may not be directly from source''], v_confidence = 0\<rparr>
     \<lparr>s_summary = '''', s_readabilityImproved = False, s_avgWordLength = 0,
      s_confidence = 4 / 5\<rparr>
     \<lparr>c_issues = [], c_compressionRatio = NaN, c_quality = Good, c_confidence = 7 / 10\<rparr>
   = ''.''"
  using refine_ends_with_punctuation [of
     "\<lparr>r_summary = '''', r_confidence = 3 / 4, r_keyPoints = 0\<rparr>"
     "\<lparr>v_verified = False, v_coverage = 0,
      v_issues = [''Some claims may not be directly from source''], v_confidence = 0\<rparr>"
     "\<lparr>s_summary = '''', s_readabilityImproved = False, s_avgWordLength = 0,
      s_confidence = 4 / 5\<rparr>"
     "\<lparr>c_issues = [], c_compressionRatio = NaN, c_quality = Good, c_confidence = 7 / 10\<rparr>"]
  by simp

text \<open>
  C1 as stated fails: on the empty base text the result is not the empty string.
\<close>

theorem refine_empty_counterexample:
  "refineSummary \<lparr>r_summary = '''', r_confidence = 3 / 4, r_keyPoints = 0\<rparr>
     \<lparr>v_verified = False, v_coverage = 0,
      v_issues = [''Some claims may not be directly from source''], v_confidence = 0\<rparr>
     \<lparr>s_summary = '''', s_readabilityImproved = False, s_avgWordLength = 0,
      s_confidence = 4 / 5\<rparr>
     \<lparr>c_issues = [], c_compressionRatio = NaN, c_quality = Good, c_confidence = 7 / 10\<rparr>
   \<noteq> ''''"
  by (simp add: refineSummary_def polish_def collapse_ws_def unspace_punct_def trim_def
      toUpperCase_def endsWith_def)

text \<open>
  C8: the base text of \<open>refineSummary\<close> is the simplification's summary when the
  verification result is verified and the reasoning's summary otherwise, and the critique
  result has no influence on the returned string.
\<close>

theorem refine_ignores_critique:
  "(v_verified v \<longrightarrow> refineSummary r v s c = polish (s_summary s))
   \<and> (\<not> v_verified v \<longrightarrow> refineSummary r v s c = polish (r_summary r))
   \<and> refineSummary r v s c = refineSummary r v s c'"
  by (simp add: refineSummary_def)

text \<open>
  The theorem of C8 at a verified result and two different critiques: the simplified text
  is the one that is polished.
\<close>

theorem refine_ignores_critique_witness:
  "refineSummary \<lparr>r_summary = ''we utilize it'', r_confidence = 3 / 4, r_keyPoints = 1\<rparr>
     \<lparr>v_verified = True, v_coverage = 100, v_issues = [], v_confidence = 1\<rparr>
     \<lparr>s_summary = ''we use it'', s_readabilityImproved = True, s_avgWordLength = 7 / 3,
      s_confidence = 4 / 5\<rparr>
     \<lparr>c_issues = [], c_compressionRatio = Finite 50, c_quality = Good, c_confidence = 7 / 10\<rparr>
   = ''We use it.''
   \<and> refineSummary \<lparr>r_summary = ''we utilize it'', r_confidence = 3 / 4, r_keyPoints = 1\<rparr>
     \<lparr>v_verified = True, v_coverage = 100, v_issues = [], v_confidence = 1\<rparr>
     \<lparr>s_summary = ''we use it'', s_readabilityImproved = True, s_avgWordLength = 7 / 3,
      s_confidence = 4 / 5\<rparr>
     \<lparr>c_issues = [''Summary may be over-compressed'', ''May be missing: alpha, gamma, delta''],
      c_compressionRatio = Finite 95, c_quality = NeedsImprovement, c_confidence = 7 / 10\<rparr>
   = ''We use it.''"
proof -
  have p: "polish ''we use it'' = ''We use it.''"
    by code_simp
  from refine_ignores_critique [where
     v = "\<lparr>v_verified = True, v_coverage = 100, v_issues = [], v_confidence = 1\<rparr>" and
     r = "\<lparr>r_summary = ''we utilize it'', r_confidence = 3 / 4, r_keyPoints = 1\<rparr>" and
     c = "\<lparr>c_issues = [], c_compressionRatio = Finite 50, c_quality = Good,
      c_confidence = 7 / 10\<rparr>" and
     s = "\<lparr>s_summary = ''we use it'', s_readabilityImproved = True, s_avgWordLength = 7 / 3,
      s_confidence = 4 / 5\<rparr>" and
     c' = "\<lparr>c_issues = [''Summary may be over-compressed'', ''May be missing: alpha, gamma, delta''],
      c_compressionRatio = Finite 95, c_quality = NeedsImprovement, c_confidence = 7 / 10\<rparr>"]
  show ?thesis
    by (auto simp add: p)
qed

section \<open>The reasoning agent: the score of a sentence\<close>

lemma foldl_bonus:
  "foldl (\<lambda>score t. if P t then score + 2 else score) (s0::int) ts
     = s0 + 2 * int (length (filter P ts))"
  by (induction ts arbitrary: s0) simp_all

lemma includes_str_occurrences: "t \<noteq> [] \<Longrightarrow> includes_str s t \<longleftrightarrow> 1 \<le> occurrences s t"
  by (induction s) auto

lemma keyIndicators_nonempty: "t \<in> set keyIndicators \<Longrightarrow> t \<noteq> []"
  by (auto simp add: keyIndicators_def)

lemma keyword_weight_count:
  "keyword_weight lowerSentence s0
     = s0 + 2 * int (length (filter (\<lambda>t. 1 \<le> occurrences lowerSentence t) keyIndicators))"
proof -
  have "filter (includes_str lowerSentence) keyIndicators
          = filter (\<lambda>t. 1 \<le> occurrences lowerSentence t) keyIndicators"
    by (rule filter_cong) (simp_all add: includes_str_occurrences keyIndicators_nonempty)
  then show ?thesis
    unfolding keyword_weight_def by (simp add: foldl_bonus)
qed

text \<open>
  C2, as the code has it: the score of a sentence is the position bonus, plus \<open>2\<close> for
  each indicator term that occurs in the lower-cased sentence at least once (however often
  it occurs there), plus the length bonus.
\<close>

theorem score_counts_each_indicator_once:
  "score (score_sentence sents idx sent)
     = (if idx < 2 then 3 else 0)
       + (if int idx = int (length sents) - 1 then 2 else 0)
       + 2 * int (length (filter (\<lambda>indicator. 1 \<le> occurrences (toLowerCase sent) indicator)
                            keyIndicators))
       + (if 10 \<le> countWords sent \<and> countWords sent \<le> 30 then 1 else 0)"
  by (simp add: score_sentence_def Let_def keyword_weight_count)

text \<open>
  The theorem of C2 at a last sentence of eight words in which \<open>key\<close> occurs three times:
  its score is \<open>2 + 2\<close>.
\<close>

theorem score_counts_each_indicator_once_witness:
  "score (score_sentence [''First sentence here.'', ''Second sentence here.'',
                          ''The key to the key is the Key.''] 2
            ''The key to the key is the Key.'') = 4"
proof -
  have "score (score_sentence [''First sentence here.'', ''Second sentence here.'',
                          ''The key to the key is the Key.''] 2
            ''The key to the key is the Key.'')
     = (if (2::nat) < 2 then 3 else 0)
       + (if int 2 = int (length [''First sentence here.'', ''Second sentence here.'',
                          ''The key to the key is the Key.'']) - 1 then 2 else 0)
       + 2 * int (length (filter (\<lambda>indicator.
                  1 \<le> occurrences (toLowerCase ''The key to the key is the Key.'') indicator)
                            keyIndicators))
       + (if 10 \<le> countWords ''The key to the key is the Key.''
             \<and> countWords ''The key to the key is the Key.'' \<le> 30 then 1 else 0)"
    by (rule score_counts_each_indicator_once)
  also have "\<dots> = 4"
    by code_simp
  finally show ?thesis .
qed

text \<open>
  C2 as stated fails: in this sentence \<open>key\<close> occurs three times, the specification's
  weight is \<open>6\<close> and the code's is \<open>2\<close>.
\<close>

theorem keyword_weight_counterexample:
  "keyword_weight (toLowerCase ''The key to the key is the Key.'') 0 = 2
   \<and> spec_keyword_weight (toLowerCase ''The key to the key is the Key.'') 0 = 6"
  by code_simp

section \<open>The verification agent: properties\<close>

lemma round_half_up_percent:
  "0 \<le> c \<Longrightarrow> c \<le> 1 \<Longrightarrow> 0 \<le> round_half_up (c * 100) \<and> round_half_up (c * 100) \<le> 100"
  unfolding round_half_up_def by (auto simp: le_floor_iff floor_le_iff)

lemma round_half_up_zero: "round_half_up 0 = 0"
proof -
  have "\<lfloor>1 / 2 :: rat\<rfloor> = 0"
    by (simp add: floor_eq_iff)
  then show ?thesis
    by (simp add: round_half_up_def)
qed

lemma matched_le_significant:
  "length (matchedWords p r) \<le> length (significantWords r)"
  unfolding matchedWords_def by (rule length_filter_le)

text \<open>The raw coverage is a fraction between \<open>0\<close> and \<open>1\<close>.\<close>

lemma coverage_bounds: "0 \<le> coverage p r \<and> coverage p r \<le> 1"
proof (cases "length (significantWords r) > 0")
  case True
  have "(of_nat (length (matchedWords p r)) :: rat) \<le> of_nat (length (significantWords r))"
    using matched_le_significant [of p r] by (simp only: of_nat_le_iff)
  with True show ?thesis
    by (simp add: coverage_def divide_le_eq_1)
next
  case False
  then show ?thesis
    by (simp add: coverage_def)
qed

text \<open>The threshold on the raw coverage, as a comparison of the two counts.\<close>

lemma coverage_above_threshold:
  "coverage p r > 7 / 10
     \<longleftrightarrow> 7 * length (significantWords r) < 10 * length (matchedWords p r)"
proof (cases "length (significantWords r) > 0")
  case True
  then have pos: "(0::rat) < of_nat (length (significantWords r))"
    by simp
  have "coverage p r > 7 / 10
      \<longleftrightarrow> (7::rat) * of_nat (length (significantWords r))
            < 10 * of_nat (length (matchedWords p r))"
    using True pos by (simp add: coverage_def field_simps)
  also have "\<dots> \<longleftrightarrow> (of_nat (7 * length (significantWords r)) :: rat)
            < of_nat (10 * length (matchedWords p r))"
    by simp
  also have "\<dots> \<longleftrightarrow> 7 * length (significantWords r) < 10 * length (matchedWords p r)"
    by (simp only: of_nat_less_iff)
  finally show ?thesis .
next
  case False
  then have "length (matchedWords p r) = 0"
    using matched_le_significant [of p r] by simp
  with False show ?thesis
    by (simp add: coverage_def)
qed

text \<open>The raw coverage is \<open>0\<close> when the summary has no significant word.\<close>

lemma verify_no_significant_words:
  "significantWords r = []
   \<Longrightarrow> coverage p r = 0 \<and> v_coverage (runVerificationAgent p r) = 0
       \<and> v_confidence (runVerificationAgent p r) = 0"
  by (simp add: runVerificationAgent_def coverage_def round_half_up_zero)

text \<open>The issue is reported exactly below the threshold.\<close>

lemma verify_issues_below_threshold:
  "v_issues (runVerificationAgent p r)
     = (if coverage p r < 7 / 10
        then [''Some claims may not be directly from source''] else [])"
  by (simp add: runVerificationAgent_def)

text \<open>
  A direct call with a summary that is not taken from the source can have a raw coverage
  of exactly \<open>7 / 10\<close>: the result is then not verified and its list of issues is empty.
\<close>

lemma verify_direct_call_at_threshold:
  "coverage doc_boundary reasoning_boundary = 7 / 10
   \<and> \<not> v_verified (runVerificationAgent doc_boundary reasoning_boundary)
   \<and> v_issues (runVerificationAgent doc_boundary reasoning_boundary) = []"
  by code_simp

text \<open>
  C4: the reported coverage is an integer percent between \<open>0\<close> and \<open>100\<close>, and the result
  is verified exactly when the raw coverage is greater than \<open>7 / 10\<close>, that is when more
  than seven in ten of the significant words are matched.
\<close>

theorem verify_coverage_range_and_threshold:
  "0 \<le> v_coverage (runVerificationAgent p r) \<and> v_coverage (runVerificationAgent p r) \<le> 100
   \<and> (v_verified (runVerificationAgent p r) \<longleftrightarrow> coverage p r > 7 / 10)
   \<and> (v_verified (runVerificationAgent p r)
        \<longleftrightarrow> 7 * length (significantWords r) < 10 * length (matchedWords p r))"
proof -
  have v: "v_verified (runVerificationAgent p r) \<longleftrightarrow> coverage p r > 7 / 10"
    by (simp add: runVerificationAgent_def)
  have c: "v_coverage (runVerificationAgent p r) = round_half_up (coverage p r * 100)"
    by (simp add: runVerificationAgent_def)
  from coverage_bounds [of p r]
  have "0 \<le> round_half_up (coverage p r * 100) \<and> round_half_up (coverage p r * 100) \<le> 100"
    by (intro round_half_up_percent) simp_all
  with v c coverage_above_threshold [of p r] show ?thesis
    by simp
qed

text \<open>
  The theorem of C4 at a raw coverage of exactly \<open>7 / 10\<close>: the reported coverage is \<open>70\<close>
  and the result is not verified.
\<close>

theorem verify_coverage_range_and_threshold_witness:
  "v_coverage (runVerificationAgent doc_boundary reasoning_boundary) = 70
   \<and> v_coverage (runVerificationAgent doc_boundary reasoning_boundary) \<le> 100
   \<and> \<not> v_verified (runVerificationAgent doc_boundary reasoning_boundary)"
proof -
  have c: "coverage doc_boundary reasoning_boundary = 7 / 10"
    by code_simp
  have p: "v_coverage (runVerificationAgent doc_boundary reasoning_boundary) = 70"
    by code_simp
  from verify_coverage_range_and_threshold [of doc_boundary reasoning_boundary] c p
  show ?thesis by simp
qed

section \<open>The critique agent: properties\<close>

lemma compression_issues_exclusive: "\<not> (js_gt x (9 / 10) \<and> js_lt x (3 / 10))"
  by (cases x) auto

text \<open>
  On a source of zero words the quotient of the word counts has the denominator \<open>0\<close>:
  the reported ratio is NaN when the summary has no word either, and negative infinity
  when it has words.
\<close>

lemma critique_zero_words:
  "countWords (normalized p) = 0
   \<Longrightarrow> c_compressionRatio (runCritiqueAgent p r)
       = (if countWords (r_summary r) = 0 then NaN else NegInfinity)"
  by (simp add: runCritiqueAgent_def Let_def js_div_def)

text \<open>
  C9, the code on a source of zero words: the quotient of the two word counts is \<open>0 / 0\<close>,
  and the reported compression ratio is NaN.
\<close>

theorem critique_zero_words_nan:
  "c_compressionRatio (runCritiqueAgent doc_url_only (runReasoningAgent doc_url_only)) = NaN"
  by code_simp

text \<open>
  C10: the list of issues of the critique has at most two elements, the two compression
  issues are never both in it, and the quality is \<open>Needs improvement\<close> exactly when the
  list has two elements.
\<close>

theorem critique_issue_count:
  "length (c_issues (runCritiqueAgent p r)) \<le> 2
   \<and> \<not> (''Summary may be over-compressed'' \<in> set (c_issues (runCritiqueAgent p r))
        \<and> ''Summary could be more concise'' \<in> set (c_issues (runCritiqueAgent p r)))
   \<and> (c_quality (runCritiqueAgent p r) = NeedsImprovement
        \<longleftrightarrow> length (c_issues (runCritiqueAgent p r)) = 2)"
  using compression_issues_exclusive
    [of "js_one_minus (js_div (countWords (r_summary r)) (countWords (normalized p)))"]
  by (auto simp add: runCritiqueAgent_def Let_def quality_of_def)

text \<open>
  The theorem of C10 at an empty summary of a source with four repeated terms: the summary
  is over-compressed and misses the four terms, so there are two issues.
\<close>

theorem critique_issue_count_witness:
  "c_issues (runCritiqueAgent doc_terms reasoning_empty)
     = [''Summary may be over-compressed'', ''May be missing: alphas, betas, gammas'']
   \<and> c_quality (runCritiqueAgent doc_terms reasoning_empty) = NeedsImprovement"
proof -
  have i: "c_issues (runCritiqueAgent doc_terms reasoning_empty)
     = [''Summary may be over-compressed'', ''May be missing: alphas, betas, gammas'']"
    by code_simp
  from critique_issue_count [of doc_terms reasoning_empty] i
  show ?thesis by simp
qed

section \<open>The reasoning agent: the selection\<close>

text \<open>\<^verbatim>\<open>Math.ceil(n * 0.3)\<close> in integer arithmetic.\<close>

lemma ceil_three_tenths: "\<lceil>of_nat n * (3 / 10 :: rat)\<rceil> = (3 * int n + 9) div 10"
proof (rule ceiling_unique)
  define z where "z = (3 * int n + 9) div 10"
  have z1: "10 * z \<le> 3 * int n + 9"
    unfolding z_def by linarith
  have z2: "3 * int n + 9 < 10 * z + 10"
    unfolding z_def by linarith
  have "10 * z - 10 < 3 * int n"
    using z1 by linarith
  then have "(of_int (10 * z - 10) :: rat) < of_int (3 * int n)"
    by (simp only: of_int_less_iff)
  then show "of_int ((3 * int n + 9) div 10) - 1 < of_nat n * (3 / 10 :: rat)"
    by (simp add: z_def)
  have "3 * int n \<le> 10 * z"
    using z2 by linarith
  then have "(of_int (3 * int n) :: rat) \<le> of_int (10 * z)"
    by (simp only: of_int_le_iff)
  then show "of_nat n * (3 / 10 :: rat) \<le> of_int ((3 * int n + 9) div 10)"
    by (simp add: z_def)
qed

lemma top_count_formula: "top_count n = max 3 ((3 * n + 9) div 10)"
proof -
  have "nat ((3 * int n + 9) div 10) = (3 * n + 9) div 10"
    by (simp add: nat_div_distrib nat_add_distrib nat_mult_distrib)
  then show ?thesis
    by (simp only: top_count_def ceil_three_tenths)
qed

lemma index_score_sentence: "index (score_sentence sents i s) = i"
  by (simp add: score_sentence_def Let_def)

lemma sentence_score_sentence: "sentence (score_sentence sents i s) = s"
  by (simp add: score_sentence_def Let_def)

lemma length_scored: "length (scored sents) = length sents"
  by (simp add: scored_def)

lemma map_index_scored: "map index (scored sents) = [0..<length sents]"
proof -
  have "map index (scored sents) = map fst (enumerate 0 sents)"
    by (simp add: scored_def index_score_sentence split_def comp_def)
  then show ?thesis by simp
qed

lemma map_sentence_scored: "map sentence (scored sents) = sents"
proof -
  have "map sentence (scored sents) = map snd (enumerate 0 sents)"
    by (simp add: scored_def sentence_score_sentence split_def comp_def)
  then show ?thesis by simp
qed

lemma scored_sentence_nth:
  assumes "x \<in> set (scored sents)"
  shows "index x < length sents \<and> sentence x = sents ! index x"
proof -
  from assms obtain i s where "(i, s) \<in> set (enumerate 0 sents)" and x: "x = score_sentence sents i s"
    by (auto simp add: scored_def)
  then have "i < length sents \<and> s = sents ! i"
    by (auto simp add: in_set_enumerate_eq)
  with x show ?thesis
    by (simp add: index_score_sentence sentence_score_sentence)
qed

lemma length_topSentences:
  "length (topSentences sents) = min (length sents) (top_count (length sents))"
  by (simp add: topSentences_def chosen_def length_scored min.commute)

lemma set_chosen: "set (chosen sents) \<subseteq> set (scored sents)"
  unfolding chosen_def
  using set_take_subset [of _ "sort_key (\<lambda>a. - score a) (scored sents)"] by simp

lemma distinct_chosen: "distinct (map index (chosen sents))"
proof -
  have "distinct (map index (scored sents))"
    by (simp add: map_index_scored)
  then have "distinct (map index (sort_key (\<lambda>a. - score a) (scored sents)))"
    by (simp add: distinct_map)
  then have "distinct (take (top_count (length sents))
                 (map index (sort_key (\<lambda>a. - score a) (scored sents))))"
    by (rule distinct_take)
  then have "distinct (map index (take (top_count (length sents))
                 (sort_key (\<lambda>a. - score a) (scored sents))))"
    by (simp only: take_map)
  then show ?thesis
    by (simp add: chosen_def distinct_map)
qed

lemma strict_sorted_chosen: "sorted_wrt (<) (map index (chosen sents))"
proof -
  have "sorted (map index (chosen sents))"
    by (simp add: chosen_def)
  with distinct_chosen show ?thesis
    by (simp add: strict_sorted_iff)
qed

text \<open>
  The selected items are the scored items filtered, in the order of the document: both
  lists are strictly sorted by index and have the same elements.
\<close>

lemma chosen_is_filter:
  "chosen sents = filter (\<lambda>x. x \<in> set (chosen sents)) (scored sents)"
proof -
  let ?f = "filter (\<lambda>x. x \<in> set (chosen sents)) (scored sents)"
  have inj: "inj_on index (set (scored sents))"
    using distinct_map [of index "scored sents"] by (simp add: map_index_scored)
  have "sorted_wrt (<) (map index (scored sents))"
    by (simp add: map_index_scored)
  then have "sorted_wrt (<) (map index ?f)"
    by (simp add: sorted_wrt_map sorted_wrt_filter)
  then have 1: "sorted (map index ?f) \<and> distinct (map index ?f)"
    by (simp add: strict_sorted_iff)
  have 2: "sorted (map index (chosen sents)) \<and> distinct (map index (chosen sents))"
    using strict_sorted_chosen [of sents] by (simp add: strict_sorted_iff)
  have "set ?f = set (chosen sents)"
    using set_chosen [of sents] by auto
  then have "set (map index ?f) = set (map index (chosen sents))"
    by simp
  with 1 2 have "map index (chosen sents) = map index ?f"
    by (intro sorted_distinct_set_unique) simp_all
  moreover have "inj_on index (set (chosen sents) \<union> set ?f)"
    using set_chosen [of sents] by (intro inj_on_subset [OF inj]) auto
  ultimately show ?thesis
    by (simp only: inj_on_map_eq_map)
qed

lemma subseq_topSentences: "subseq (topSentences sents) sents"
proof -
  have "subseq (filter (\<lambda>x. x \<in> set (chosen sents)) (scored sents)) (scored sents)"
    by simp
  then have "subseq (chosen sents) (scored sents)"
    using chosen_is_filter [of sents] by simp
  then have "subseq (map sentence (chosen sents)) (map sentence (scored sents))"
    by (rule subseq_map)
  then show ?thesis
    by (simp add: topSentences_def map_sentence_scored)
qed


text \<open>
  C5: a document of \<open>N > 0\<close> sentences has \<open>min N (max 3 \<lceil>N * 0.3\<rceil>)\<close> selected
  sentences, and \<open>keyPoints\<close> is that number; a document without sentences has the empty
  summary and \<open>keyPoints = 0\<close>.
\<close>

theorem extract_selection_count:
  "(0 < length (sentences p) \<longrightarrow>
      length (topSentences (sentences p))
        = min (length (sentences p))
            (max 3 (nat \<lceil>of_nat (length (sentences p)) * (3 / 10 :: rat)\<rceil>))
      \<and> r_keyPoints (runReasoningAgent p)
        = min (length (sentences p))
            (max 3 (nat \<lceil>of_nat (length (sentences p)) * (3 / 10 :: rat)\<rceil>)))
   \<and> (length (sentences p) = 0 \<longrightarrow>
      r_summary (runReasoningAgent p) = [] \<and> r_keyPoints (runReasoningAgent p) = 0)"
proof -
  have k: "r_keyPoints (runReasoningAgent p) = length (topSentences (sentences p))"
    by (simp add: runReasoningAgent_def Let_def)
  have s: "r_summary (runReasoningAgent p) = join '' '' (topSentences (sentences p))"
    by (simp add: runReasoningAgent_def Let_def)
  have l: "length (topSentences (sentences p))
        = min (length (sentences p))
            (max 3 (nat \<lceil>of_nat (length (sentences p)) * (3 / 10 :: rat)\<rceil>))"
    by (simp only: length_topSentences top_count_def)
  have "length (topSentences (sentences p)) \<le> length (sentences p)"
    by (simp add: length_topSentences)
  then have "length (sentences p) = 0 \<longrightarrow> topSentences (sentences p) = []"
    by auto
  with k s l show ?thesis
    by auto
qed

text \<open>
  The theorem of C5 at a document of five sentences (three are selected) and at a
  document without sentences.
\<close>

theorem extract_selection_count_witness:
  "r_keyPoints (runReasoningAgent doc_five) = 3
   \<and> r_summary (runReasoningAgent doc_url_only) = []
   \<and> r_keyPoints (runReasoningAgent doc_url_only) = 0"
proof -
  have n5: "0 < length (sentences doc_five)"
    by (simp add: doc_five_def)
  have n0: "length (sentences doc_url_only) = 0"
    by (simp add: doc_url_only_def)
  have v: "min (length (sentences doc_five))
            (max 3 (nat \<lceil>of_nat (length (sentences doc_five)) * (3 / 10 :: rat)\<rceil>)) = 3"
    by code_simp
  from extract_selection_count [of doc_five] n5 v
    extract_selection_count [of doc_url_only] n0
  show ?thesis by simp
qed

text \<open>
  C6: the selected sentences are the sentences of the document at strictly increasing
  positions, so they stand in the summary in the order of the document (they are a
  subsequence of the document's sentences), whatever their scores; the summary joins them
  with single spaces.
\<close>

theorem summary_keeps_document_order:
  "sorted_wrt (<) (map index (chosen (sentences p)))
   \<and> set (map index (chosen (sentences p))) \<subseteq> {..<length (sentences p)}
   \<and> topSentences (sentences p)
       = map (\<lambda>i. sentences p ! i) (map index (chosen (sentences p)))
   \<and> subseq (topSentences (sentences p)) (sentences p)
   \<and> r_summary (runReasoningAgent p) = join '' '' (topSentences (sentences p))"
proof -
  have 1: "set (map index (chosen (sentences p))) \<subseteq> {..<length (sentences p)}"
    using set_chosen [of "sentences p"] scored_sentence_nth [of _ "sentences p"] by auto
  have "map sentence (chosen (sentences p))
          = map (\<lambda>x. sentences p ! index x) (chosen (sentences p))"
    using set_chosen [of "sentences p"] scored_sentence_nth [of _ "sentences p"]
    by (intro map_cong) auto
  then have 2: "topSentences (sentences p)
       = map (\<lambda>i. sentences p ! i) (map index (chosen (sentences p)))"
    by (simp add: topSentences_def comp_def)
  have 3: "r_summary (runReasoningAgent p) = join '' '' (topSentences (sentences p))"
    by (simp add: runReasoningAgent_def Let_def)
  from strict_sorted_chosen [of "sentences p"] 1 2 subseq_topSentences [of "sentences p"] 3
  show ?thesis by blast
qed

text \<open>
  The theorem of C6 at the document of five sentences: by score the order of the selected
  positions is \<open>1, 4, 0\<close>, in the summary it is \<open>0, 1, 4\<close>.
\<close>

theorem summary_keeps_document_order_witness:
  "map index (take 3 (sort_key (\<lambda>a. - score a) (scored (sentences doc_five)))) = [1, 4, 0]
   \<and> map index (chosen (sentences doc_five)) = [0, 1, 4]
   \<and> sorted_wrt (<) (map index (chosen (sentences doc_five)))
   \<and> r_summary (runReasoningAgent doc_five)
       = ''Alpha beta gamma delta. The key point is the key. Final result is here.''"
proof -
  have a: "map index (take 3 (sort_key (\<lambda>a. - score a) (scored (sentences doc_five)))) = [1, 4, 0]"
    by code_simp
  have b: "map index (chosen (sentences doc_five)) = [0, 1, 4]"
    by code_simp
  have c: "join '' '' (map (\<lambda>i. sentences doc_five ! i) [0, 1, 4])
       = ''Alpha beta gamma delta. The key point is the key. Final result is here.''"
    by code_simp
  from summary_keeps_document_order [of doc_five] a b c
  show ?thesis by simp
qed

section \<open>The simplification agent: properties\<close>

text \<open>Two characters with the same upper-case form have the same lower-case form.\<close>

lemma toLowerChar_toUpperChar: "toLowerChar (toUpperChar c) = toLowerChar c"
  by (simp add: toLowerChar_def toUpperChar_def lower_letters_def upper_letters_def)

lemma match_ci_prefix:
  "match_ci pat s \<Longrightarrow> prefix (toLowerCase pat) (toLowerCase s)"
proof (induction pat s rule: match_ci.induct)
  case (1 s)
  then show ?case by (simp add: toLowerCase_def)
next
  case (2 p ps)
  then show ?case by simp
next
  case (3 p ps c cs)
  then have "toLowerChar (toUpperChar p) = toLowerChar (toUpperChar c)"
    by simp
  then have "toLowerChar p = toLowerChar c"
    by (simp only: toLowerChar_toUpperChar)
  with 3 show ?case
    by (simp add: toLowerCase_def)
qed

text \<open>A pattern that does not occur in the text, up to case, is replaced nowhere.\<close>

lemma replace_gi_absent:
  "\<not> includes_str (toLowerCase s) (toLowerCase pat) \<Longrightarrow> replace_gi pat rep s = s"
proof (induction s)
  case Nil
  then show ?case by simp
next
  case (Cons c cs)
  from Cons.prems have 1: "\<not> prefix (toLowerCase pat) (toLowerCase (c # cs))"
    and 2: "\<not> includes_str (toLowerCase cs) (toLowerCase pat)"
    by (simp_all add: toLowerCase_def)
  from 1 have "\<not> match_ci pat (c # cs)"
    using match_ci_prefix by blast
  with Cons.IH [OF 2] show ?case
    by simp
qed

lemma foldl_replace_absent:
  "(\<forall>complex\<in>set (map fst reps). \<not> includes_str (toLowerCase text) (toLowerCase complex))
   \<Longrightarrow> foldl (\<lambda>simplified (complex, simple). replace_gi complex simple simplified) text reps
       = text"
  by (induction reps) (auto simp add: replace_gi_absent)

lemma simplify_text_absent:
  "(\<forall>complex\<in>set (map fst replacements).
       \<not> includes_str (toLowerCase text) (toLowerCase complex))
   \<Longrightarrow> simplify_text text = text"
  unfolding simplify_text_def by (rule foldl_replace_absent)

text \<open>
  C7: when the summary of the reasoning result contains none of the ten complex terms, up
  to case, the simplified summary is the summary itself; simplifying the result once more
  changes nothing.
\<close>

theorem simplify_unchanged_without_mapped_terms:
  assumes "\<forall>complex\<in>set (map fst replacements).
       \<not> includes_str (toLowerCase (r_summary r)) (toLowerCase complex)"
  shows "s_summary (runSimplificationAgent p r) = r_summary r
   \<and> s_summary (runSimplificationAgent p (r\<lparr>r_summary := s_summary (runSimplificationAgent p r)\<rparr>))
       = s_summary (runSimplificationAgent p r)"
proof -
  have "s_summary (runSimplificationAgent p r) = r_summary r"
    using assms by (simp add: runSimplificationAgent_def Let_def simplify_text_absent)
  moreover have "s_summary (runSimplificationAgent p (r\<lparr>r_summary := r_summary r\<rparr>)) = r_summary r"
    using assms by (simp add: runSimplificationAgent_def Let_def simplify_text_absent)
  ultimately show ?thesis by simp
qed

text \<open>The theorem of C7 at a summary without any of the ten terms.\<close>

theorem simplify_unchanged_without_mapped_terms_witness:
  "s_summary (runSimplificationAgent doc_five reasoning_plain)
     = ''We use the tool. It helps a lot.''"
proof -
  have h: "\<forall>complex\<in>set (map fst replacements).
       \<not> includes_str (toLowerCase (r_summary reasoning_plain)) (toLowerCase complex)"
    by code_simp
  have v: "r_summary reasoning_plain = ''We use the tool. It helps a lot.''"
    by (simp add: reasoning_plain_def)
  from simplify_unchanged_without_mapped_terms [OF h, of doc_five] h v
  show ?thesis by simp
qed

section \<open>The verification agent in the pipeline\<close>

text \<open>\<^const>\<open>includes_str\<close> is the contiguous-sublist relation of the library.\<close>

lemma includes_str_sublist: "includes_str s t \<longleftrightarrow> sublist t s"
  by (induction s) (simp_all add: sublist_Cons_right)

text \<open>Every piece that the sentence split returns is a piece of the text.\<close>

lemma sentence_go_sublist:
  "f \<in> set (sentence_go insep cur s) \<Longrightarrow> sublist f (rev cur @ s)"
proof (induction s arbitrary: insep cur)
  case Nil
  then show ?case by simp
next
  case (Cons c cs)
  show ?case
  proof (cases "is_space c")
    case False
    with Cons.prems have "f \<in> set (sentence_go False (c # cur) cs)"
      by simp
    from Cons.IH [OF this] show ?thesis by simp
  next
    case sp: True
    show ?thesis
    proof (cases insep)
      case True
      with sp Cons.prems have "f \<in> set (sentence_go True [] cs)"
        by simp
      from Cons.IH [OF this] have "sublist f cs" by simp
      then have "sublist f ((rev cur @ [c]) @ cs)"
        by (meson sublist_order.order_trans sublist_append_leftI)
      then show ?thesis by simp
    next
      case ns: False
      show ?thesis
      proof (cases "cur \<noteq> [] \<and> is_terminator (hd cur)")
        case True
        with sp ns Cons.prems have "f = rev cur \<or> f \<in> set (sentence_go True [] cs)"
          by simp
        then show ?thesis
        proof
          assume "f = rev cur"
          then show ?thesis by simp
        next
          assume "f \<in> set (sentence_go True [] cs)"
          from Cons.IH [OF this] have "sublist f cs" by simp
          then have "sublist f ((rev cur @ [c]) @ cs)"
            by (meson sublist_order.order_trans sublist_append_leftI)
          then show ?thesis by simp
        qed
      next
        case False
        with sp ns Cons.prems have "f \<in> set (sentence_go False (c # cur) cs)"
          by auto
        from Cons.IH [OF this] show ?thesis by simp
      qed
    qed
  qed
qed

text \<open>The document that \<^verbatim>\<open>processInput\<close> builds satisfies \<^const>\<open>from_source\<close>.\<close>

lemma processInput_from_source:
  "from_source \<lparr>original = text, normalized = processed,
      sentences = sentences_of processed, wordCount = countWords processed\<rparr>"
  using sentence_go_sublist [of _ False "[]" processed]
  by (auto simp add: from_source_def list_all_iff sentences_of_def split_sentences_def includes_str_sublist)














end
